theory Spec2Isabelle
  imports Complex_Main "HOL-Library.Sublist"
begin

section \<open>Values\<close>

text \<open>
  A Python \<open>str\<close> is modelled by \<open>string\<close>: the list of the bytes of its UTF-8 encoding.
  The regular expression and the JSON decoder only look for ASCII characters, which occur
  in UTF-8 only as themselves, so both read the bytes as they read the code points.

  \<open>json.loads\<close> returns \<open>None\<close>, a \<open>bool\<close>, an \<open>int\<close>, a \<open>float\<close>, a \<open>str\<close>, a \<open>list\<close>
  or a \<open>dict\<close>. A \<open>float\<close> is represented by the literal it was read from (its rounding to
  a binary double is not modelled). A \<open>dict\<close> is an association list with distinct keys in
  insertion order.
\<close>

datatype json =
    JNull
  | JBool bool
  | JInt int
  | JFloat string
  | JString string
  | JArray "json list"
  | JObject "(string \<times> json) list"

text \<open>\<open>d[k] = v\<close>: an existing key keeps its position and takes the new value.\<close>

fun dict_set :: "string \<Rightarrow> json \<Rightarrow> (string \<times> json) list \<Rightarrow> (string \<times> json) list" where
  "dict_set k v [] = [(k, v)]"
| "dict_set k v ((k', v') # kvs) =
     (if k' = k then (k, v) # kvs else (k', v') # dict_set k v kvs)"

text \<open>\<open>k in d\<close> and \<open>d[k]\<close> on a \<open>dict\<close>.\<close>

definition dict_has :: "string \<Rightarrow> (string \<times> json) list \<Rightarrow> bool" where
  "dict_has k kvs = (map_of kvs k \<noteq> None)"


text \<open>
  What \<open>json.loads\<close> raises: \<open>json.JSONDecodeError\<close> (its message is never read by the
  program), or any other exception, given by its \<open>str()\<close>.
\<close>

datatype exn = JSONDecodeError | OtherException string

section \<open>\<open>re.search(r'\{.*\}', text, re.DOTALL)\<close>\<close>

text \<open>
  \<open>.*\}\<close> at the head of a string: the star is greedy, so it first takes one more
  character and tries the rest; only when that fails does \<open>\}\<close> have to match here.
  With \<open>re.DOTALL\<close> the dot matches every character.
\<close>

fun greedy_to_rbrace :: "string \<Rightarrow> string option" where
  "greedy_to_rbrace [] = None"
| "greedy_to_rbrace (c # cs) =
     (case greedy_to_rbrace cs of
        Some m \<Rightarrow> Some (c # m)
      | None \<Rightarrow> if c = CHR ''}'' then Some [c] else None)"

fun match_here :: "string \<Rightarrow> string option" where
  "match_here [] = None"
| "match_here (c # cs) =
     (if c = CHR ''{'' then map_option ((#) c) (greedy_to_rbrace cs) else None)"

text \<open>\<open>re.search\<close> tries the start positions from left to right; \<open>match.group()\<close> is the
  matched text.\<close>

fun re_search :: "string \<Rightarrow> string option" where
  "re_search [] = None"
| "re_search (c # cs) =
     (case match_here (c # cs) of Some m \<Rightarrow> Some m | None \<Rightarrow> re_search cs)"

text \<open>
  The specification's words for the same span: the substring from the first \<open>{\<close> to the
  last \<open>}\<close> of the text, when both exist in that order.
\<close>

definition first_lbrace :: "string \<Rightarrow> nat" where
  "first_lbrace text = length (takeWhile (\<lambda>c. c \<noteq> CHR ''{'') text)"

definition last_rbrace :: "string \<Rightarrow> nat" where
  "last_rbrace text = length text - 1 - length (takeWhile (\<lambda>c. c \<noteq> CHR ''}'') (rev text))"

definition first_to_last_brace :: "string \<Rightarrow> string option" where
  "first_to_last_brace text =
     (if CHR ''{'' \<in> set text \<and> CHR ''}'' \<in> set text \<and> first_lbrace text < last_rbrace text
      then Some (take (last_rbrace text + 1 - first_lbrace text) (drop (first_lbrace text) text))
      else None)"

section \<open>\<open>extract_json\<close>\<close>

text \<open>The mapping of the last line of \<open>extract_json\<close>.\<close>

definition parse_failed :: "string \<Rightarrow> json" where
  "parse_failed text =
     JObject [(''error'', JString ''Failed to parse JSON''), (''raw'', JString text)]"

text \<open>
  \<open>extract_json\<close>, with \<open>json.loads\<close> as the parameter \<open>loads\<close>. The outer handler is
  \<open>except json.JSONDecodeError\<close>: any other exception of the first call leaves the function.
  The handler's own \<open>try\<close> has a bare \<open>except\<close>, so nothing leaves the second call. An
  exception that leaves \<open>extract_json\<close> is therefore never a \<open>JSONDecodeError\<close>; the result
  \<open>Inl d\<close> stands for it, \<open>d\<close> being its \<open>str()\<close>.
\<close>

definition extract_json :: "(string \<Rightarrow> exn + json) \<Rightarrow> string \<Rightarrow> string + json" where
  "extract_json loads text =
     (case loads text of
        Inr v \<Rightarrow> Inr v
      | Inl (OtherException d) \<Rightarrow> Inl d
      | Inl JSONDecodeError \<Rightarrow>
          (case re_search text of
             Some m \<Rightarrow>
               (case loads m of
                  Inr v \<Rightarrow> Inr v
                | Inl _ \<Rightarrow> Inr (parse_failed text))
           | None \<Rightarrow> Inr (parse_failed text)))"

section \<open>The decoder: \<open>json.loads\<close> on a \<open>str\<close>\<close>

text \<open>
  A model of CPython's \<open>json.loads(s)\<close> with the default arguments, as far as the program
  can observe it: the value returned, or which kind of exception is raised. The decoder
  reads the text once from left to right and raises at the first thing it cannot accept;
  here a lexer cuts the text into tokens and a pushdown automaton reads them in order.
  Not modelled: the value of a \<open>float\<close> (kept as its literal) and the interpreter's
  recursion limit.
\<close>

datatype token =
    TLBrace | TRBrace | TLBracket | TRBracket | TComma | TColon
  | TString string
  | TInt bool string
  | TFloat string
  | TLit json
  | TBad

definition is_ws :: "char \<Rightarrow> bool" where
  "is_ws c = (c = CHR '' '' \<or> c = CHR 0x09 \<or> c = CHR 0x0A \<or> c = CHR 0x0D)"

definition is_digit :: "char \<Rightarrow> bool" where
  "is_digit c = (c \<in> set ''0123456789'')"

definition digit_val :: "char \<Rightarrow> nat" where
  "digit_val c = of_char c - of_char CHR ''0''"

definition hex_val :: "char \<Rightarrow> nat option" where
  "hex_val c =
     (if c \<in> set ''0123456789'' then Some (of_char c - of_char CHR ''0'')
      else if c \<in> set ''abcdef'' then Some (of_char c - of_char CHR ''a'' + 10)
      else if c \<in> set ''ABCDEF'' then Some (of_char c - of_char CHR ''A'' + 10)
      else None)"

text \<open>Four hexadecimal digits of a \<open>\uXXXX\<close> escape.\<close>

fun hex4 :: "string \<Rightarrow> nat option" where
  "hex4 (a # b # c # d # _) =
     (case (hex_val a, hex_val b, hex_val c, hex_val d) of
        (Some x, Some y, Some z, Some w) \<Rightarrow> Some (((x * 16 + y) * 16 + z) * 16 + w)
      | _ \<Rightarrow> None)"
| "hex4 _ = None"

text \<open>The bytes of a code point in UTF-8 (a lone surrogate is written the same way).\<close>

definition utf8 :: "nat \<Rightarrow> string" where
  "utf8 n =
     (if n < 0x80 then [char_of n]
      else if n < 0x800 then [char_of (0xC0 + n div 64), char_of (0x80 + n mod 64)]
      else if n < 0x10000 then
        [char_of (0xE0 + n div 4096), char_of (0x80 + n div 64 mod 64), char_of (0x80 + n mod 64)]
      else
        [char_of (0xF0 + n div 262144), char_of (0x80 + n div 4096 mod 64),
         char_of (0x80 + n div 64 mod 64), char_of (0x80 + n mod 64)])"

definition simple_escape :: "char \<Rightarrow> char option" where
  "simple_escape e =
     (if e = CHR 0x22 then Some (CHR 0x22)
      else if e = CHR 0x5C then Some (CHR 0x5C)
      else if e = CHR ''/'' then Some (CHR ''/'')
      else if e = CHR ''b'' then Some (CHR 0x08)
      else if e = CHR ''f'' then Some (CHR 0x0C)
      else if e = CHR ''n'' then Some (CHR 0x0A)
      else if e = CHR ''r'' then Some (CHR 0x0D)
      else if e = CHR ''t'' then Some (CHR 0x09)
      else None)"

definition with_prefix :: "string \<Rightarrow> (string \<times> string) option \<Rightarrow> (string \<times> string) option" where
  "with_prefix p r = map_option (\<lambda>(s, rest). (p @ s, rest)) r"

text \<open>
  The body of a string, after its opening quote: the decoded string and the text after the
  closing quote, or \<open>None\<close> where the decoder raises \<open>JSONDecodeError\<close> (end of text, a
  control character, a bad escape). A high surrogate followed by an escaped low surrogate
  is joined into one code point.
\<close>

fun scan_string :: "string \<Rightarrow> (string \<times> string) option" where
  "scan_string [] = None"
| "scan_string (c # cs) =
     (if c = CHR 0x22 then Some ([], cs)
      else if c = CHR 0x5C then
        (case cs of
           [] \<Rightarrow> None
         | e # es \<Rightarrow>
             if e = CHR ''u'' then
               (case hex4 es of
                  None \<Rightarrow> None
                | Some hi \<Rightarrow>
                    if 0xD800 \<le> hi \<and> hi \<le> 0xDBFF \<and> take 2 (drop 4 es) = [CHR 0x5C, CHR ''u'']
                    then
                      (case hex4 (drop 6 es) of
                         None \<Rightarrow> None
                       | Some lo \<Rightarrow>
                           if 0xDC00 \<le> lo \<and> lo \<le> 0xDFFF
                           then with_prefix
                                  (utf8 (0x10000 + (hi - 0xD800) * 1024 + (lo - 0xDC00)))
                                  (scan_string (drop 10 es))
                           else with_prefix (utf8 hi) (scan_string (drop 4 es)))
                    else with_prefix (utf8 hi) (scan_string (drop 4 es)))
             else
               (case simple_escape e of
                  None \<Rightarrow> None
                | Some d \<Rightarrow> with_prefix [d] (scan_string es)))
      else if of_char c < (0x20::nat) then None
      else with_prefix [c] (scan_string cs))"

text \<open>
  A number at the head of the text, as the decoder's pattern
  \<open>(-?(?:0|[1-9][0-9]*))(\.[0-9]+)?([eE][-+]?[0-9]+)?\<close> matches it: an integer part, then
  a fraction and an exponent only where they are complete.
\<close>

definition scan_frac :: "string \<Rightarrow> string \<times> string" where
  "scan_frac s =
     (case s of
        c # d # r \<Rightarrow>
          if c = CHR ''.'' \<and> is_digit d
          then (c # takeWhile is_digit (d # r), dropWhile is_digit (d # r))
          else ([], s)
      | _ \<Rightarrow> ([], s))"

definition scan_exp :: "string \<Rightarrow> string \<times> string" where
  "scan_exp s =
     (case s of
        [] \<Rightarrow> ([], s)
      | e # r \<Rightarrow>
          if e = CHR ''e'' \<or> e = CHR ''E'' then
            (let (sgn, r') =
                   (case r of
                      [] \<Rightarrow> ([], r)
                    | g # r'' \<Rightarrow> if g = CHR ''+'' \<or> g = CHR ''-'' then ([g], r'') else ([], r))
             in if r' \<noteq> [] \<and> is_digit (hd r')
                then (e # sgn @ takeWhile is_digit r', dropWhile is_digit r')
                else ([], s))
          else ([], s))"

definition scan_int :: "string \<Rightarrow> (string \<times> string) option" where
  "scan_int s =
     (case s of
        [] \<Rightarrow> None
      | d # ds \<Rightarrow>
          if d = CHR ''0'' then Some ([d], ds)
          else if is_digit d then Some (d # takeWhile is_digit ds, dropWhile is_digit ds)
          else None)"

definition scan_number :: "string \<Rightarrow> (token \<times> string) option" where
  "scan_number s =
     (let (neg, s1) = (case s of [] \<Rightarrow> (False, s)
                       | c # cs \<Rightarrow> if c = CHR ''-'' then (True, cs) else (False, s))
      in case scan_int s1 of
           None \<Rightarrow> None
         | Some (ip, r1) \<Rightarrow>
             (let (frac, r2) = scan_frac r1; (ex, r3) = scan_exp r2
              in if frac = [] \<and> ex = [] then Some (TInt neg ip, r3)
                 else Some (TFloat ((if neg then ''-'' else []) @ ip @ frac @ ex), r3)))"

definition starts_with :: "string \<Rightarrow> string \<Rightarrow> bool" where
  "starts_with p s = (take (length p) s = p)"

text \<open>
  The token at the head of a text that starts with no white space, and the text after it;
  \<open>None\<close> where no token starts. The order of the tests is the decoder's.
\<close>

definition next_token :: "string \<Rightarrow> (token \<times> string) option" where
  "next_token s =
     (case s of
        [] \<Rightarrow> None
      | c # cs \<Rightarrow>
          if c = CHR 0x22 then map_option (\<lambda>(str, rest). (TString str, rest)) (scan_string cs)
          else if c = CHR ''{'' then Some (TLBrace, cs)
          else if c = CHR ''['' then Some (TLBracket, cs)
          else if c = CHR ''}'' then Some (TRBrace, cs)
          else if c = CHR '']'' then Some (TRBracket, cs)
          else if c = CHR '','' then Some (TComma, cs)
          else if c = CHR '':'' then Some (TColon, cs)
          else if starts_with ''null'' s then Some (TLit JNull, drop 4 s)
          else if starts_with ''true'' s then Some (TLit (JBool True), drop 4 s)
          else if starts_with ''false'' s then Some (TLit (JBool False), drop 5 s)
          else
            (case scan_number s of
               Some r \<Rightarrow> Some r
             | None \<Rightarrow>
                 if starts_with ''NaN'' s then Some (TLit (JFloat ''NaN''), drop 3 s)
                 else if starts_with ''Infinity'' s then Some (TLit (JFloat ''Infinity''), drop 8 s)
                 else if starts_with ''-Infinity'' s
                 then Some (TLit (JFloat ''-Infinity''), drop 9 s)
                 else None))"

lemma with_prefix_Some:
  "with_prefix p r = Some (s, rest) \<longleftrightarrow> (\<exists>s'. r = Some (s', rest) \<and> s = p @ s')"
  by (cases r) (auto simp: with_prefix_def)

lemma scan_string_shorter: "scan_string cs = Some (s, rest) \<Longrightarrow> length rest < length cs"
proof (induction cs arbitrary: s rest rule: scan_string.induct)
  case 1
  then show ?case by simp
next
  case (2 c cs)
  show ?case
  proof (cases "c = CHR 0x22")
    case True
    with "2.prems" show ?thesis by simp
  next
    case notq: False
    show ?thesis
    proof (cases "c = CHR 0x5C")
      case False
      with notq "2.prems" obtain s' where "scan_string cs = Some (s', rest)"
        by (auto simp: with_prefix_Some split: if_splits)
      with "2.IH"(5) [OF notq False] "2.prems" notq False show ?thesis
        by (fastforce split: if_splits)
    next
      case bs: True
      then obtain e es where cs: "cs = e # es"
        using "2.prems" notq by (cases cs) auto
      show ?thesis
      proof (cases "e = CHR ''u''")
        case False
        with "2.prems" notq bs cs obtain d s' where
          d: "simple_escape e = Some d" and r: "scan_string es = Some (s', rest)"
          by (auto simp: with_prefix_Some split: option.splits)
        from "2.IH"(4) [OF notq bs cs False d r] cs show ?thesis by simp
      next
        case u: True
        with "2.prems" notq bs cs obtain hi where hi: "hex4 es = Some hi"
          by (auto split: option.splits)
        let ?pair = "0xD800 \<le> hi \<and> hi \<le> 0xDBFF \<and> take 2 (drop 4 es) = [CHR 0x5C, CHR ''u'']"
        show ?thesis
        proof (cases ?pair)
          case False
          with "2.prems" notq bs cs u hi obtain s' where r: "scan_string (drop 4 es) = Some (s', rest)"
            by (auto simp: with_prefix_Some)
          from "2.IH"(3) [OF notq bs cs u hi False r] cs show ?thesis by simp
        next
          case True
          with "2.prems" notq bs cs u hi obtain lo where lo: "hex4 (drop 6 es) = Some lo"
            by (auto split: option.splits)
          show ?thesis
          proof (cases "0xDC00 \<le> lo \<and> lo \<le> 0xDFFF")
            case lo_ok: True
            with "2.prems" notq bs cs u hi True lo obtain s' where
              r: "scan_string (drop 10 es) = Some (s', rest)"
              by (auto simp: with_prefix_Some)
            from "2.IH"(1) [OF notq bs cs u hi True lo lo_ok r] cs show ?thesis by simp
          next
            case lo_no: False
            with "2.prems" notq bs cs u hi True lo obtain s' where
              r: "scan_string (drop 4 es) = Some (s', rest)"
              by (auto simp: with_prefix_Some)
            from "2.IH"(2) [OF notq bs cs u hi True lo lo_no r] cs show ?thesis by simp
          qed
        qed
      qed
    qed
  qed
qed

lemma scan_frac_le: "scan_frac s = (f, r) \<Longrightarrow> length r \<le> length s"
  by (auto simp: scan_frac_def split: list.splits if_splits
           intro: le_trans [OF length_dropWhile_le])

lemma scan_exp_le: "scan_exp s = (f, r) \<Longrightarrow> length r \<le> length s"
  by (auto simp: scan_exp_def Let_def split: list.splits if_splits prod.splits
           intro: le_trans [OF length_dropWhile_le])

lemma scan_int_shorter: "scan_int s = Some (ip, r) \<Longrightarrow> length r < length s"
  by (auto simp: scan_int_def split: list.splits if_splits
           intro: le_imp_less_Suc [OF length_dropWhile_le])

lemma scan_number_shorter: "scan_number s = Some (t, rest) \<Longrightarrow> length rest < length s"
proof -
  assume a: "scan_number s = Some (t, rest)"
  obtain neg s1 where ns: "(case s of [] \<Rightarrow> (False, s)
       | c # cs \<Rightarrow> if c = CHR ''-'' then (True, cs) else (False, s)) = (neg, s1)"
    by (cases "(case s of [] \<Rightarrow> (False, s)
       | c # cs \<Rightarrow> if c = CHR ''-'' then (True, cs) else (False, s))") auto
  then have l1: "length s1 \<le> length s"
    by (auto split: list.splits if_splits)
  from a ns obtain ip r1 where si: "scan_int s1 = Some (ip, r1)"
    by (auto simp: scan_number_def split: option.splits)
  obtain frac r2 where sf: "scan_frac r1 = (frac, r2)" by (cases "scan_frac r1") auto
  obtain ex r3 where se: "scan_exp r2 = (ex, r3)" by (cases "scan_exp r2") auto
  from a ns si sf se have "rest = r3"
    by (auto simp: scan_number_def split: if_splits)
  with scan_int_shorter [OF si] scan_frac_le [OF sf] scan_exp_le [OF se] l1
  show ?thesis by simp
qed

lemma next_token_shorter: "next_token s = Some (t, rest) \<Longrightarrow> length rest < length s"
  by (cases s)
     (auto simp: next_token_def starts_with_def
           split: if_splits option.splits
           dest: scan_string_shorter scan_number_shorter)

text \<open>
  The tokens of a text. White space (space, tab, line feed, carriage return) may stand
  between any two tokens. The list ends with \<open>TBad\<close> where no token starts.
\<close>

function lex :: "string \<Rightarrow> token list" where
  "lex s =
     (case dropWhile is_ws s of
        [] \<Rightarrow> []
      | c # cs \<Rightarrow>
          (case next_token (c # cs) of
             None \<Rightarrow> [TBad]
           | Some (t, rest) \<Rightarrow> t # lex rest))"
  by pat_completeness auto
termination
proof (relation "measure length")
  show "wf (measure length)" by simp
next
  fix s :: string and c cs x2 t rest
  assume d: "dropWhile is_ws s = c # cs" and n: "next_token (c # cs) = Some x2"
    and x: "(t, rest) = x2"
  from n x have "length rest < length (c # cs)"
    using next_token_shorter [of "c # cs" t rest] by simp
  moreover have "length (dropWhile is_ws s) \<le> length s" by (rule length_dropWhile_le)
  ultimately show "(rest, s) \<in> measure length" using d by simp
qed

declare lex.simps [simp del]

text \<open>Decimal digits of a natural number, as \<open>str(n)\<close> prints it.\<close>

function string_of_nat :: "nat \<Rightarrow> string" where
  "string_of_nat n =
     (if n < 10 then [char_of (of_char CHR ''0'' + n)]
      else string_of_nat (n div 10) @ [char_of (of_char CHR ''0'' + n mod 10)])"
  by pat_completeness auto
termination
  by (relation "measure id") auto

declare string_of_nat.simps [simp del]

text \<open>
  \<open>int(digits)\<close>. CPython (3.11 and later, and the security releases of 3.7 to 3.10)
  refuses a decimal literal of more than \<open>sys.get_int_max_str_digits()\<close> digits, 4300
  unless reconfigured, with a \<open>ValueError\<close>, which is not a \<open>JSONDecodeError\<close>.
\<close>

definition int_max_str_digits :: nat where
  "int_max_str_digits = 4300"

definition int_limit_message :: "nat \<Rightarrow> string" where
  "int_limit_message n =
     ''Exceeds the limit ('' @ string_of_nat int_max_str_digits
       @ '' digits) for integer string conversion: value has '' @ string_of_nat n
       @ '' digits; use sys.set_int_max_str_digits() to increase the limit''"

definition nat_of_digits :: "string \<Rightarrow> nat" where
  "nat_of_digits ds = foldl (\<lambda>a c. 10 * a + digit_val c) 0 ds"

definition py_int :: "bool \<Rightarrow> string \<Rightarrow> exn + json" where
  "py_int neg ds =
     (if length ds > int_max_str_digits then Inl (OtherException (int_limit_message (length ds)))
      else Inr (JInt (if neg then - int (nat_of_digits ds) else int (nat_of_digits ds))))"

text \<open>
  The automaton. A frame is an open array with its elements so far, or an open object
  with its pairs so far and, between a key and its value, that key.
\<close>

datatype frame =
    Arr "json list"
  | Obj "(string \<times> json) list" "string option"

datatype expect =
    Value
  | ValueOrEnd
  | KeyOrEnd
  | Key
  | Colon
  | CommaOrEnd
  | Finished json

text \<open>A value is complete: it is the result, or goes into the innermost open container.\<close>

fun after_value :: "json \<Rightarrow> frame list \<Rightarrow> exn + (expect \<times> frame list)" where
  "after_value v [] = Inr (Finished v, [])"
| "after_value v (Arr xs # st) = Inr (CommaOrEnd, Arr (xs @ [v]) # st)"
| "after_value v (Obj kvs (Some k) # st) = Inr (CommaOrEnd, Obj (dict_set k v kvs) None # st)"
| "after_value v (Obj kvs None # st) = Inl JSONDecodeError"

fun value_token :: "token \<Rightarrow> frame list \<Rightarrow> exn + (expect \<times> frame list)" where
  "value_token TLBrace st = Inr (KeyOrEnd, Obj [] None # st)"
| "value_token TLBracket st = Inr (ValueOrEnd, Arr [] # st)"
| "value_token (TString s) st = after_value (JString s) st"
| "value_token (TInt neg ds) st =
     (case py_int neg ds of Inl e \<Rightarrow> Inl e | Inr v \<Rightarrow> after_value v st)"
| "value_token (TFloat l) st = after_value (JFloat l) st"
| "value_token (TLit v) st = after_value v st"
| "value_token _ st = Inl JSONDecodeError"

fun key_token :: "token \<Rightarrow> frame list \<Rightarrow> exn + (expect \<times> frame list)" where
  "key_token (TString k) (Obj kvs _ # st) = Inr (Colon, Obj kvs (Some k) # st)"
| "key_token _ _ = Inl JSONDecodeError"

fun close_token :: "token \<Rightarrow> frame list \<Rightarrow> exn + (expect \<times> frame list)" where
  "close_token TRBracket (Arr xs # st) = after_value (JArray xs) st"
| "close_token TRBrace (Obj kvs None # st) = after_value (JObject kvs) st"
| "close_token _ _ = Inl JSONDecodeError"

fun step :: "expect \<Rightarrow> frame list \<Rightarrow> token \<Rightarrow> exn + (expect \<times> frame list)" where
  "step Value st t = value_token t st"
| "step ValueOrEnd st t = (if t = TRBracket then close_token t st else value_token t st)"
| "step KeyOrEnd st t = (if t = TRBrace then close_token t st else key_token t st)"
| "step Key st t = key_token t st"
| "step Colon st t = (if t = TColon then Inr (Value, st) else Inl JSONDecodeError)"
| "step CommaOrEnd st t =
     (if t = TComma then
        (case st of
           Arr _ # _ \<Rightarrow> Inr (Value, st)
         | Obj _ _ # _ \<Rightarrow> Inr (Key, st)
         | [] \<Rightarrow> Inl JSONDecodeError)
      else close_token t st)"
| "step (Finished v) st t = Inl JSONDecodeError"

fun parse :: "expect \<Rightarrow> frame list \<Rightarrow> token list \<Rightarrow> exn + json" where
  "parse e st [] = (case e of Finished v \<Rightarrow> Inr v | _ \<Rightarrow> Inl JSONDecodeError)"
| "parse e st (t # ts) =
     (case step e st t of
        Inl x \<Rightarrow> Inl x
      | Inr (e', st') \<Rightarrow> parse e' st' ts)"

definition json_loads :: "string \<Rightarrow> exn + json" where
  "json_loads s = parse Value [] (lex s)"

section \<open>\<open>analyze_gauge\<close>\<close>

definition models :: "string list" where
  "models =
     [''meta-llama/llama-4-scout-17b-16e-instruct'',
      ''llama-3.2-90b-vision-preview'',
      ''llama-3.2-11b-vision-preview'']"

text \<open>
  One request to the remote service, lines 101 to 115 up to the call of \<open>extract_json\<close>:
  \<open>client.chat.completions.create(...)\<close> followed by \<open>completion.choices[0].message.content\<close>
  either raises (\<open>Raises d\<close>, with \<open>d = str(e)\<close>) or yields the content, which the client
  library types as an optional string. The service is the parameter \<open>create\<close>: it reads
  and changes a world \<open>'w\<close> and is given the model identifier and the image URL of the
  request (prompt, temperature and response format are the same in every request).
\<close>

datatype reply = Raises string | Content "string option"

definition image_url :: "string \<Rightarrow> string" where
  "image_url image_base64 = ''data:image/jpeg;base64,'' @ image_base64"

text \<open>The mapping of the last line of \<open>analyze_gauge\<close>.\<close>

definition all_models_failed :: "string \<Rightarrow> json" where
  "all_models_failed last_error =
     JObject [(''error'', JString (''All models failed. Last error: '' @ last_error))]"

text \<open>\<open>json.loads(None)\<close> raises this \<open>TypeError\<close> before it decodes anything.\<close>

definition not_a_str_message :: string where
  "not_a_str_message = ''the JSON object must be str, bytes or bytearray, not NoneType''"

definition invoked :: "string \<Rightarrow> json \<times> string list \<times> 'w \<Rightarrow> json \<times> string list \<times> 'w" where
  "invoked model_id r = (case r of (v, called, w) \<Rightarrow> (v, model_id # called, w))"

text \<open>
  The \<open>for\<close> loop over the remaining candidates, with the current \<open>last_error\<close>. The
  call of \<open>extract_json\<close> stands inside the \<open>try\<close>, so an exception that leaves it is
  caught by \<open>except Exception\<close> like a failed request. The result is the value returned,
  the identifiers of the models requested, in order, and the world afterwards.
\<close>

fun try_models ::
  "(string \<Rightarrow> exn + json) \<Rightarrow> ('w \<Rightarrow> string \<Rightarrow> string \<Rightarrow> reply \<times> 'w) \<Rightarrow> string
     \<Rightarrow> string list \<Rightarrow> string \<Rightarrow> 'w \<Rightarrow> json \<times> string list \<times> 'w" where
  "try_models loads create url [] last_error w = (all_models_failed last_error, [], w)"
| "try_models loads create url (model_id # rest) last_error w =
     (case create w model_id url of
        (Raises d, w') \<Rightarrow> invoked model_id (try_models loads create url rest d w')
      | (Content None, w') \<Rightarrow>
          invoked model_id (try_models loads create url rest not_a_str_message w')
      | (Content (Some text), w') \<Rightarrow>
          (case extract_json loads text of
             Inr v \<Rightarrow> (v, [model_id], w')
           | Inl d \<Rightarrow> invoked model_id (try_models loads create url rest d w')))"

definition analyze_gauge ::
  "(string \<Rightarrow> exn + json) \<Rightarrow> ('w \<Rightarrow> string \<Rightarrow> string \<Rightarrow> reply \<times> 'w) \<Rightarrow> string \<Rightarrow> 'w
     \<Rightarrow> json \<times> string list \<times> 'w" where
  "analyze_gauge loads create image_base64 w =
     try_models loads create (image_url image_base64) models [] w"

section \<open>Session state and the two handlers\<close>

text \<open>A \<open>float\<close> that a widget returns is represented by a decimal literal, as in \<open>json\<close>.\<close>

record verified_record =
  Time :: string
  Reading :: string
  Unit :: string
  Condition :: string
  Notes :: string
  Verified :: bool

record session_state =
  history :: "verified_record list"
  staging_data :: "json option"

definition initial_state :: session_state where
  "initial_state = \<lparr>history = [], staging_data = None\<rparr>"

datatype py_error =
    TypeError | AttributeError | ValueError | OverflowError | ZeroDivisionError | OSError
  | StreamlitAPIException

text \<open>
  \<open>"error" in ai_data\<close>: a key of a \<open>dict\<close>, an element of a \<open>list\<close> (only an equal
  \<open>str\<close> is equal to a \<open>str\<close>), a substring of a \<open>str\<close>; on \<open>None\<close>, a \<open>bool\<close>, an
  \<open>int\<close> or a \<open>float\<close> the operator raises \<open>TypeError\<close>.
\<close>

fun is_substring :: "string \<Rightarrow> string \<Rightarrow> bool" where
  "is_substring p [] = (p = [])"
| "is_substring p (c # cs) = (prefix p (c # cs) \<or> is_substring p cs)"

fun error_in :: "json \<Rightarrow> py_error + bool" where
  "error_in (JObject kvs) = Inr (dict_has ''error'' kvs)"
| "error_in (JArray xs) = Inr (JString ''error'' \<in> set xs)"
| "error_in (JString s) = Inr (is_substring ''error'' s)"
| "error_in _ = Inl TypeError"

text \<open>\<open>ai_data['error']\<close>, evaluated only after the test above was true: a \<open>list\<close> and a
  \<open>str\<close> take no \<open>str\<close> as index.\<close>

fun subscript_error :: "json \<Rightarrow> py_error + json" where
  "subscript_error (JObject kvs) =
     (case map_of kvs ''error'' of Some v \<Rightarrow> Inr v | None \<Rightarrow> Inl TypeError)"
| "subscript_error _ = Inl TypeError"

text \<open>
  What the handler of the button "Analyze Telemetry" does with the value of
  \<open>analyze_gauge\<close> (lines 150 to 155): \<open>st.error(f"Error: {v}")\<close> is \<open>ShowsError v\<close>,
  \<open>st.rerun()\<close> after staging is \<open>Reruns\<close>, an uncaught exception is \<open>Raised\<close>.
\<close>

datatype outcome = ShowsError json | Reruns | Raised py_error

definition on_result :: "json \<Rightarrow> session_state \<Rightarrow> outcome \<times> session_state" where
  "on_result ai_data s =
     (case error_in ai_data of
        Inl e \<Rightarrow> (Raised e, s)
      | Inr True \<Rightarrow>
          (case subscript_error ai_data of
             Inl e \<Rightarrow> (Raised e, s)
           | Inr v \<Rightarrow> (ShowsError v, s))
      | Inr False \<Rightarrow> (Reruns, s\<lparr>staging_data := Some ai_data\<rparr>))"

text \<open>The handler itself, given the base64 text that \<open>encode_image_to_base64\<close> returned.\<close>

definition analyze_telemetry ::
  "(string \<Rightarrow> exn + json) \<Rightarrow> ('w \<Rightarrow> string \<Rightarrow> string \<Rightarrow> reply \<times> 'w) \<Rightarrow> string \<Rightarrow> 'w
     \<Rightarrow> session_state \<Rightarrow> outcome \<times> session_state" where
  "analyze_telemetry loads create base64_img w s =
     on_result (fst (analyze_gauge loads create base64_img w)) s"































section \<open>Observing the requests\<close>

text \<open>
  To say which requests a run makes, a service is wrapped so that it records every request
  it receives, with the reply it gave, in the order of arrival.
\<close>

datatype request = Request (model_of: string) (url_of: string) (reply_of: reply)

definition logged ::
  "('w \<Rightarrow> string \<Rightarrow> string \<Rightarrow> reply \<times> 'w)
     \<Rightarrow> request list \<times> 'w \<Rightarrow> string \<Rightarrow> string \<Rightarrow> reply \<times> (request list \<times> 'w)" where
  "logged create lw model_id url =
     (case lw of (lg, w) \<Rightarrow>
        (case create w model_id url of (r, w') \<Rightarrow> (r, (lg @ [Request model_id url r], w'))))"

text \<open>
  The description that \<open>except Exception as e\<close> stores in \<open>last_error\<close> for a reply, when
  the body of the \<open>try\<close> raises on it; \<open>None\<close> when it returns.
\<close>

fun failure_of :: "(string \<Rightarrow> exn + json) \<Rightarrow> reply \<Rightarrow> string option" where
  "failure_of loads (Raises d) = Some d"
| "failure_of loads (Content None) = Some not_a_str_message"
| "failure_of loads (Content (Some body)) =
     (case extract_json loads body of Inl d \<Rightarrow> Some d | Inr v \<Rightarrow> None)"

text \<open>
  The shape of a run of the loop over the candidates \<open>ms\<close>, in terms of the requests \<open>new\<close>
  that the service received during it: they went to a prefix of the candidates, in order,
  one each, with the same URL; every reply but the last was a failure; and either the last
  reply was one too, every candidate was requested and the result is the error mapping
  built from that last failure, or the result is what \<open>extract_json\<close> returned for the text
  of the last reply.
\<close>

definition run_shape ::
  "(string \<Rightarrow> exn + json) \<Rightarrow> string \<Rightarrow> string list \<Rightarrow> string \<Rightarrow> json \<Rightarrow> string list
     \<Rightarrow> request list \<Rightarrow> bool" where
  "run_shape loads url ms e v called new =
     (map model_of new = called \<and> prefix called ms
      \<and> (\<forall>r \<in> set new. url_of r = url)
      \<and> (\<forall>r \<in> set (butlast new). failure_of loads (reply_of r) \<noteq> None)
      \<and> (if new = [] then ms = [] \<and> v = all_models_failed e
         else (case failure_of loads (reply_of (last new)) of
                 Some d \<Rightarrow> called = ms \<and> v = all_models_failed d
               | None \<Rightarrow> (\<exists>body. reply_of (last new) = Content (Some body)
                             \<and> extract_json loads body = Inr v))))"

section \<open>\<open>encode_image_to_base64\<close>\<close>

text \<open>
  A PIL image as far as the function reads it: its size and its mode. The pixels, and with
  them the bytes of the JPEG file, are not modelled: the bytes that Pillow's JPEG writer
  produces for an image at quality 85 are the parameter \<open>jpeg\<close>.
\<close>

record image =
  width :: nat
  height :: nat
  mode :: string

text \<open>
  \<open>Image.thumbnail(size)\<close> of Pillow 7 and later: an image that fits is left alone;
  otherwise one side takes the bound and the other is the scaled length, rounded down or up
  to whichever whole number keeps the aspect ratio closer, and at least 1. The quotients
  are exact here, \<open>float\<close> in Pillow.
\<close>

definition round_aspect :: "rat \<Rightarrow> (int \<Rightarrow> rat) \<Rightarrow> int" where
  "round_aspect number key =
     max (if key \<lfloor>number\<rfloor> \<le> key \<lceil>number\<rceil> then \<lfloor>number\<rfloor> else \<lceil>number\<rceil>) 1"

definition preserve_aspect_ratio :: "nat \<times> nat \<Rightarrow> image \<Rightarrow> py_error + (nat \<times> nat) option" where
  "preserve_aspect_ratio bound im =
     (case bound of (x, y) \<Rightarrow>
        if x \<ge> width im \<and> y \<ge> height im then Inr None
        else if height im = 0 \<or> y = 0 then Inl ZeroDivisionError
        else
          (let aspect = rat_of_nat (width im) / rat_of_nat (height im)
           in if rat_of_nat x / rat_of_nat y \<ge> aspect
              then Inr (Some
                     (nat (round_aspect (rat_of_nat y * aspect)
                             (\<lambda>n. \<bar>aspect - rat_of_int n / rat_of_nat y\<bar>)),
                      y))
              else Inr (Some
                     (x,
                      nat (round_aspect (rat_of_nat x / aspect)
                             (\<lambda>n. if n = 0 then 0 else \<bar>aspect - rat_of_nat x / rat_of_int n\<bar>))))))"

definition thumbnail :: "nat \<times> nat \<Rightarrow> image \<Rightarrow> py_error + image" where
  "thumbnail bound im =
     (case preserve_aspect_ratio bound im of
        Inl e \<Rightarrow> Inl e
      | Inr None \<Rightarrow> Inr im
      | Inr (Some (x, y)) \<Rightarrow> Inr (im\<lparr>width := x, height := y\<rparr>))"

text \<open>
  \<open>image.save(buffered, format="JPEG", quality=85)\<close>: the JPEG writer refuses an empty
  image with \<open>ValueError\<close> and a mode it has no raw mode for ("cannot write mode RGBA as
  JPEG") with \<open>OSError\<close>.
\<close>

definition jpeg_modes :: "string list" where
  "jpeg_modes = [''1'', ''L'', ''RGB'', ''RGBX'', ''CMYK'', ''YCbCr'']"

definition save_jpeg :: "(image \<Rightarrow> string) \<Rightarrow> image \<Rightarrow> py_error + string" where
  "save_jpeg jpeg im =
     (if width im = 0 \<or> height im = 0 then Inl ValueError
      else if mode im \<notin> set jpeg_modes then Inl OSError
      else Inr (jpeg im))"

text \<open>\<open>base64.b64encode\<close>: three bytes give four characters, the last group is padded.\<close>

definition b64_char :: "nat \<Rightarrow> char" where
  "b64_char n =
     ''ABCDEFGHIJKLMNOPQRSTUVWXYZabcdefghijklmnopqrstuvwxyz0123456789+/'' ! (n mod 64)"

fun b64encode :: "string \<Rightarrow> string" where
  "b64encode [] = []"
| "b64encode [a] =
     [b64_char (of_char a div 4), b64_char (of_char a mod 4 * 16), CHR ''='', CHR ''='']"
| "b64encode [a, b] =
     [b64_char (of_char a div 4), b64_char (of_char a mod 4 * 16 + of_char b div 16),
      b64_char (of_char b mod 16 * 4), CHR ''='']"
| "b64encode (a # b # c # rest) =
     [b64_char (of_char a div 4), b64_char (of_char a mod 4 * 16 + of_char b div 16),
      b64_char (of_char b mod 16 * 4 + of_char c div 64), b64_char (of_char c mod 64)]
     @ b64encode rest"

definition encode_image_to_base64 :: "(image \<Rightarrow> string) \<Rightarrow> image \<Rightarrow> py_error + string" where
  "encode_image_to_base64 jpeg img =
     (case thumbnail (800, 800) img of
        Inl e \<Rightarrow> Inl e
      | Inr im \<Rightarrow>
          (case save_jpeg jpeg im of
             Inl e \<Rightarrow> Inl e
           | Inr bytes \<Rightarrow> Inr (b64encode bytes)))"

section \<open>Observations on results\<close>

text \<open>Whether a result is a mapping, and the keys a mapping has.\<close>

fun is_mapping :: "json \<Rightarrow> bool" where
  "is_mapping (JObject kvs) = True"
| "is_mapping _ = False"

fun has_key :: "string \<Rightarrow> json \<Rightarrow> bool" where
  "has_key k (JObject kvs) = dict_has k kvs"
| "has_key k _ = False"

fun get_key :: "string \<Rightarrow> json \<Rightarrow> json option" where
  "get_key k (JObject kvs) = map_of kvs k"
| "get_key k _ = None"


section \<open>Example services\<close>

text \<open>A service where every request raises; the world counts the requests.\<close>

definition refuses :: "nat \<Rightarrow> string \<Rightarrow> string \<Rightarrow> reply \<times> nat" where
  "refuses w model_id url = (Raises (''no capacity for '' @ model_id), Suc w)"

text \<open>A service that answers every request with the same text.\<close>

definition always_answers :: "string \<Rightarrow> 'w \<Rightarrow> string \<Rightarrow> string \<Rightarrow> reply \<times> 'w" where
  "always_answers body w model_id url = (Content (Some body), w)"

text \<open>
  A service whose first candidate answers with a number of 4301 digits and whose other
  candidates answer with an empty object.
\<close>

definition long_integer_first :: "unit \<Rightarrow> string \<Rightarrow> string \<Rightarrow> reply \<times> unit" where
  "long_integer_first w model_id url =
     (if model_id = ''meta-llama/llama-4-scout-17b-16e-instruct''
      then (Content (Some (replicate 4301 CHR ''1'')), w)
      else (Content (Some ''{}''), w))"




section \<open>The span of the regular expression\<close>

lemma takeWhile_rev_snoc:
  "x \<in> set cs \<Longrightarrow> takeWhile (\<lambda>c. c \<noteq> x) (rev cs @ [c]) = takeWhile (\<lambda>c. c \<noteq> x) (rev cs)"
  by (rule takeWhile_append1 [of x]) auto

lemma length_takeWhile_less:
  "x \<in> set cs \<Longrightarrow> length (takeWhile (\<lambda>c. c \<noteq> x) (rev cs)) < length cs"
proof -
  assume "x \<in> set cs"
  then have "takeWhile (\<lambda>c. c \<noteq> x) (rev cs) \<noteq> rev cs"
    by (auto simp: takeWhile_eq_all_conv)
  moreover have "length (takeWhile (\<lambda>c. c \<noteq> x) (rev cs)) \<le> length (rev cs)"
    by (rule length_takeWhile_le)
  ultimately show ?thesis
    by (metis length_rev le_neq_implies_less takeWhile_eq_take take_all_iff order_refl)
qed

lemma last_rbrace_Cons:
  "CHR ''}'' \<in> set cs \<Longrightarrow> last_rbrace (c # cs) = Suc (last_rbrace cs)"
  using length_takeWhile_less [of "CHR ''}''" cs]
  by (simp add: last_rbrace_def takeWhile_rev_snoc)

lemma last_rbrace_only_head:
  "CHR ''}'' \<notin> set cs \<Longrightarrow> last_rbrace (CHR ''}'' # cs) = 0"
proof -
  assume "CHR ''}'' \<notin> set cs"
  then have "takeWhile (\<lambda>c. c \<noteq> CHR ''}'') (rev cs @ [CHR ''}'']) = rev cs"
    by (subst takeWhile_append2) auto
  then show ?thesis by (simp add: last_rbrace_def)
qed

lemma greedy_to_rbrace_None: "CHR ''}'' \<notin> set cs \<Longrightarrow> greedy_to_rbrace cs = None"
  by (induction cs) auto

lemma greedy_to_rbrace_Some:
  "CHR ''}'' \<in> set cs \<Longrightarrow> greedy_to_rbrace cs = Some (take (Suc (last_rbrace cs)) cs)"
proof (induction cs)
  case Nil
  then show ?case by simp
next
  case (Cons c cs)
  show ?case
  proof (cases "CHR ''}'' \<in> set cs")
    case True
    with Cons.IH show ?thesis by (simp add: last_rbrace_Cons)
  next
    case False
    with Cons.prems have "c = CHR ''}''" by simp
    with False show ?thesis
      by (simp add: greedy_to_rbrace_None last_rbrace_only_head)
  qed
qed

lemma re_search_no_rbrace: "CHR ''}'' \<notin> set cs \<Longrightarrow> re_search cs = None"
  by (induction cs) (auto simp: greedy_to_rbrace_None)

lemma first_to_last_brace_skip:
  assumes "c \<noteq> CHR ''{''"
  shows "first_to_last_brace (c # cs) = first_to_last_brace cs"
proof (cases "CHR ''}'' \<in> set cs")
  case True
  with assms show ?thesis
    by (simp add: first_to_last_brace_def first_lbrace_def last_rbrace_Cons)
next
  case False
  with assms show ?thesis
    by (cases "c = CHR ''}''")
       (simp_all add: first_to_last_brace_def first_lbrace_def last_rbrace_only_head)
qed

lemma re_search_first_to_last: "re_search text = first_to_last_brace text"
proof (induction "text")
  case Nil
  show ?case by (simp add: first_to_last_brace_def)
next
  case (Cons c cs)
  show ?case
  proof (cases "c = CHR ''{''")
    case False
    with Cons.IH show ?thesis by (simp add: first_to_last_brace_skip)
  next
    case True
    show ?thesis
    proof (cases "CHR ''}'' \<in> set cs")
      case in_cs: True
      with True show ?thesis
        by (simp add: greedy_to_rbrace_Some first_to_last_brace_def first_lbrace_def
                      last_rbrace_Cons)
    next
      case False
      with True show ?thesis
        by (simp add: greedy_to_rbrace_None re_search_no_rbrace first_to_last_brace_def)
    qed
  qed
qed

lemma lex_Nil: "lex [] = []"
  by (simp add: lex.simps)

lemma next_token_ones:
  "next_token (replicate (Suc n) CHR ''1'') = Some (TInt False (replicate (Suc n) CHR ''1''), [])"
  by (simp add: next_token_def starts_with_def scan_number_def scan_int_def scan_frac_def
                scan_exp_def is_digit_def takeWhile_replicate dropWhile_replicate)

lemma lex_ones: "lex (replicate (Suc n) CHR ''1'') = [TInt False (replicate (Suc n) CHR ''1'')]"
proof -
  have "dropWhile is_ws (replicate (Suc n) CHR ''1'') = CHR ''1'' # replicate n CHR ''1''"
    by (simp add: is_ws_def)
  then show ?thesis
    using next_token_ones [of n] by (subst lex.simps) (simp add: lex_Nil)
qed

lemma json_loads_long_integer:
  assumes "int_max_str_digits < n"
  shows "json_loads (replicate n CHR ''1'') = Inl (OtherException (int_limit_message n))"
proof -
  from assms obtain m where n: "n = Suc m" by (cases n) auto
  show ?thesis
    using assms unfolding n json_loads_def lex_ones
    by (simp add: py_int_def)
qed

section \<open>The chain of candidates\<close>

lemma invoked_triple [simp]: "invoked m (v, called, w) = (v, m # called, w)"
  by (simp add: invoked_def)

lemma called_invoked [simp]: "fst (snd (invoked m r)) = m # fst (snd r)"
  by (cases r) simp

lemma value_invoked [simp]: "fst (invoked m r) = fst r"
  by (cases r) simp

lemma try_models_prefix: "prefix (fst (snd (try_models loads create url ms e w))) ms"
proof (induction ms arbitrary: e w)
  case Nil
  show ?case by simp
next
  case (Cons m ms)
  obtain r w' where c: "create w m url = (r, w')" by (cases "create w m url") auto
  show ?case
  proof (cases r)
    case (Raises d)
    with c Cons.IH [of d w'] show ?thesis by simp
  next
    case (Content t)
    show ?thesis
    proof (cases t)
      case None
      with c Content Cons.IH [of not_a_str_message w'] show ?thesis by simp
    next
      case (Some body)
      show ?thesis
      proof (cases "extract_json loads body")
        case (Inl d)
        with c Content Some Cons.IH [of d w'] show ?thesis by simp
      next
        case (Inr v)
        with c Content Some show ?thesis by simp
      qed
    qed
  qed
qed

lemma distinct_models: "distinct models"
  by (simp add: models_def)

text \<open>
  C3. If the request to every candidate raises, \<open>analyze_gauge\<close> returns one mapping
  whose only entry is \<open>error\<close>, with the text "All models failed. Last error: " followed
  by the description of the last failure; the descriptions of the first two failures
  have no part in the result.
\<close>

theorem analyze_gauge_all_requests_raise:
  assumes "create w ''meta-llama/llama-4-scout-17b-16e-instruct'' (image_url img) = (Raises ea, wa)"
    and "create wa ''llama-3.2-90b-vision-preview'' (image_url img) = (Raises eb, wb)"
    and "create wb ''llama-3.2-11b-vision-preview'' (image_url img) = (Raises ec, wc)"
  shows "analyze_gauge loads create img w
           = (JObject [(''error'', JString (''All models failed. Last error: '' @ ec))],
              models, wc)"
  using assms by (simp add: analyze_gauge_def models_def all_models_failed_def)

theorem analyze_gauge_all_requests_raise_witness:
  "analyze_gauge json_loads refuses [] 0
     = (JObject [(''error'', JString
          ''All models failed. Last error: no capacity for llama-3.2-11b-vision-preview'')],
        models, 3)"
  using analyze_gauge_all_requests_raise
    [where create = refuses and w = 0 and wa = 1 and wb = 2 and wc = 3
       and img = "[]" and loads = json_loads
       and ea = "''no capacity for meta-llama/llama-4-scout-17b-16e-instruct''"
       and eb = "''no capacity for llama-3.2-90b-vision-preview''"
       and ec = "''no capacity for llama-3.2-11b-vision-preview''"]
  by (simp add: refuses_def)

section \<open>Properties of \<open>extract_json\<close>\<close>

lemma extract_json_success: "loads t = Inr v \<Longrightarrow> extract_json loads t = Inr v"
  by (simp add: extract_json_def)

lemma extract_json_span:
  "loads t = Inl JSONDecodeError \<Longrightarrow>
   extract_json loads t =
     (case first_to_last_brace t of
        None \<Rightarrow> Inr (parse_failed t)
      | Some m \<Rightarrow>
          (case loads m of Inr v \<Rightarrow> Inr v | Inl e \<Rightarrow> Inr (parse_failed t)))"
  by (simp add: extract_json_def re_search_first_to_last split: option.splits)


lemma extract_json_returns:
  assumes "\<forall>d. loads t \<noteq> Inl (OtherException d)"
  shows "\<exists>v. extract_json loads t = Inr v"
proof (cases "loads t")
  case (Inr v)
  then show ?thesis by (simp add: extract_json_def)
next
  case (Inl e)
  with assms have "loads t = Inl JSONDecodeError" by (cases e) auto
  then show ?thesis
    by (auto simp: extract_json_def split: option.splits sum.splits)
qed

lemma no_gauge_text:
  "json_loads ''I cannot analyze this image.'' = Inl JSONDecodeError"
  "re_search ''I cannot analyze this image.'' = None"
  by code_simp+

text \<open>
  C2. The claim says that \<open>extract_json\<close> never raises. The code does: on a text of 4301
  digits, a valid JSON number, the first \<open>json.loads\<close> raises \<open>ValueError\<close>, which the
  handler for \<open>JSONDecodeError\<close> does not catch, so the exception leaves \<open>extract_json\<close>
  (the handler's own \<open>try\<close>, with its bare \<open>except\<close>, would have caught it).
\<close>

theorem extract_json_raises_on_long_integer:
  "extract_json json_loads (replicate 4301 CHR ''1'') = Inl (int_limit_message 4301)"
proof -
  have "json_loads (replicate 4301 CHR ''1'') = Inl (OtherException (int_limit_message 4301))"
    by (rule json_loads_long_integer) (simp add: int_max_str_digits_def)
  then show ?thesis
    by (simp only: extract_json_def sum.case exn.case)
qed

lemma next_token_ones_then_space:
  "next_token (replicate (Suc n) CHR ''1'' @ CHR '' '' # rest)
     = Some (TInt False (replicate (Suc n) CHR ''1''), CHR '' '' # rest)"
proof -
  have t: "takeWhile is_digit (replicate n CHR ''1'' @ CHR '' '' # rest) = replicate n CHR ''1''"
    by (subst takeWhile_append2) (auto simp: is_digit_def)
  have d: "dropWhile is_digit (replicate n CHR ''1'' @ CHR '' '' # rest) = CHR '' '' # rest"
    by (subst dropWhile_append2) (auto simp: is_digit_def)
  show ?thesis
    by (simp add: next_token_def starts_with_def scan_number_def scan_int_def scan_frac_def
                  scan_exp_def t d split: list.splits)
       (simp add: is_digit_def)
qed

lemma json_loads_long_integer_then_space:
  assumes "int_max_str_digits < n"
  shows "json_loads (replicate n CHR ''1'' @ CHR '' '' # rest)
           = Inl (OtherException (int_limit_message n))"
proof -
  from assms obtain m where n: "n = Suc m" by (cases n) auto
  have "dropWhile is_ws (replicate (Suc m) CHR ''1'' @ CHR '' '' # rest)
          = CHR ''1'' # (replicate m CHR ''1'' @ CHR '' '' # rest)"
    by (simp add: is_ws_def)
  then have "lex (replicate (Suc m) CHR ''1'' @ CHR '' '' # rest)
          = TInt False (replicate (Suc m) CHR ''1'') # lex (CHR '' '' # rest)"
    using next_token_ones_then_space [of m rest] by (subst lex.simps) simp
  then show ?thesis
    using assms unfolding n json_loads_def by (simp add: py_int_def)
qed

lemma first_to_last_brace_after_ones:
  "first_to_last_brace (replicate n CHR ''1'' @ s) = first_to_last_brace s"
  by (induction n) (simp_all add: first_to_last_brace_skip)

text \<open>
  C4. The claim says that when the strict parse fails, the substring from the first \<open>{\<close>
  to the last \<open>}\<close> is taken and parsed. The code does so only when the strict parse fails
  with \<open>JSONDecodeError\<close>: on 4301 digits followed by a space and the object of the
  specification's example, the strict parse raises \<open>ValueError\<close> and \<open>extract_json\<close> raises
  with it, although the span exists and parses to the mapping.
\<close>

theorem extract_json_raises_without_trying_span:
  \<open>extract_json json_loads (replicate 4301 CHR ''1'' @ '' {"reading": 10, "unit": "bar"}'')
     = Inl (int_limit_message 4301)
   \<and> first_to_last_brace (replicate 4301 CHR ''1'' @ '' {"reading": 10, "unit": "bar"}'')
     = Some ''{"reading": 10, "unit": "bar"}''
   \<and> json_loads ''{"reading": 10, "unit": "bar"}''
     = Inr (JObject [(''reading'', JInt 10), (''unit'', JString ''bar'')])\<close>
proof -
  have a: \<open>json_loads (replicate 4301 CHR ''1'' @ CHR '' '' # ''{"reading": 10, "unit": "bar"}'')
             = Inl (OtherException (int_limit_message 4301))\<close>
    by (rule json_loads_long_integer_then_space) (simp add: int_max_str_digits_def)
  have b: \<open>extract_json json_loads
             (replicate 4301 CHR ''1'' @ CHR '' '' # ''{"reading": 10, "unit": "bar"}'')
             = Inl (int_limit_message 4301)\<close>
    by (simp only: extract_json_def a sum.case exn.case)
  have c: \<open>first_to_last_brace (CHR '' '' # ''{"reading": 10, "unit": "bar"}'')
             = Some ''{"reading": 10, "unit": "bar"}''\<close>
    by code_simp
  have d: \<open>json_loads ''{"reading": 10, "unit": "bar"}''
             = Inr (JObject [(''reading'', JInt 10), (''unit'', JString ''bar'')])\<close>
    by code_simp
  have f: \<open>first_to_last_brace
               (replicate 4301 CHR ''1'' @ CHR '' '' # ''{"reading": 10, "unit": "bar"}'')
             = Some ''{"reading": 10, "unit": "bar"}''\<close>
    by (simp only: first_to_last_brace_after_ones c)
  from b f d show ?thesis by simp
qed

section \<open>A reply that does not end the chain\<close>

lemma empty_object: "json_loads ''{}'' = Inr (JObject [])"
  by code_simp

text \<open>
  C1. The claim says that the first candidate whose request returns ends the chain. In the
  code it need not: the request to the first candidate returns without raising, with a
  number of 4301 digits as text; \<open>extract_json\<close> raises on it inside the \<open>try\<close>, the
  exception is caught like a failed request, and the second candidate is requested and
  gives the result.
\<close>

theorem analyze_gauge_continues_after_returned_request:
  "long_integer_first () ''meta-llama/llama-4-scout-17b-16e-instruct'' (image_url [])
     = (Content (Some (replicate 4301 CHR ''1'')), ())
   \<and> analyze_gauge json_loads long_integer_first [] ()
     = (JObject [],
        [''meta-llama/llama-4-scout-17b-16e-instruct'', ''llama-3.2-90b-vision-preview''],
        ())"
proof -
  have a: "json_loads (replicate 4301 CHR ''1'') = Inl (OtherException (int_limit_message 4301))"
    by (rule json_loads_long_integer) (simp add: int_max_str_digits_def)
  have b: "extract_json json_loads (replicate 4301 CHR ''1'') = Inl (int_limit_message 4301)"
    by (simp only: extract_json_def a sum.case exn.case)
  have c: "extract_json json_loads ''{}'' = Inr (JObject [])"
    by (rule extract_json_success [where loads = json_loads, OF empty_object])
  show ?thesis
    by (simp add: analyze_gauge_def models_def long_integer_first_def b c)
qed

section \<open>Staging\<close>

lemma on_result_error_key:
  assumes "has_key ''error'' ai_data"
  shows "\<exists>v. get_key ''error'' ai_data = Some v \<and> on_result ai_data s = (ShowsError v, s)"
proof (cases ai_data)
  case (JObject kvs)
  with assms obtain v where "map_of kvs ''error'' = Some v"
    by (auto simp: dict_has_def)
  with JObject show ?thesis
    by (simp add: on_result_def dict_has_def)
qed (use assms in simp_all)

lemma error_in_key: "error_in ai_data = Inr False \<Longrightarrow> \<not> has_key ''error'' ai_data"
  by (cases ai_data) simp_all

lemma on_result_reruns:
  assumes "fst (on_result ai_data s) = Reruns"
  shows "error_in ai_data = Inr False \<and> on_result ai_data s = (Reruns, s\<lparr>staging_data := Some ai_data\<rparr>)"
  using assms by (auto simp: on_result_def split: sum.splits bool.splits)

lemma on_result_not_reruns:
  assumes "fst (on_result ai_data s) \<noteq> Reruns"
  shows "snd (on_result ai_data s) = s"
  using assms by (auto simp: on_result_def split: sum.splits bool.splits)

text \<open>
  C5. A result is staged for verification only if it has no \<open>error\<close> key: when the
  value of \<open>analyze_gauge\<close> has the key, the handler shows its \<open>error\<close> entry as an
  error and leaves the session state, the staged value included, as it was; and whenever
  the handler stages a value and reruns, that value has no \<open>error\<close> key.
\<close>

theorem error_result_is_not_staged:
  "(has_key ''error'' ai_data
      \<longrightarrow> (\<exists>v. get_key ''error'' ai_data = Some v \<and> on_result ai_data s = (ShowsError v, s)))
   \<and> (fst (on_result ai_data s) = Reruns
      \<longrightarrow> \<not> has_key ''error'' ai_data
          \<and> snd (on_result ai_data s) = s\<lparr>staging_data := Some ai_data\<rparr>)
   \<and> (fst (on_result ai_data s) \<noteq> Reruns \<longrightarrow> snd (on_result ai_data s) = s)
   \<and> (has_key ''error'' (fst (analyze_gauge loads create img w))
      \<longrightarrow> snd (analyze_telemetry loads create img w s) = s
          \<and> (\<exists>v. fst (analyze_telemetry loads create img w s) = ShowsError v))"
proof (intro conjI impI)
  assume "has_key ''error'' ai_data"
  then show "\<exists>v. get_key ''error'' ai_data = Some v \<and> on_result ai_data s = (ShowsError v, s)"
    by (rule on_result_error_key)
next
  assume a: "fst (on_result ai_data s) = Reruns"
  from on_result_reruns [OF a] show "\<not> has_key ''error'' ai_data"
    by (simp add: error_in_key)
  from on_result_reruns [OF a] show "snd (on_result ai_data s) = s\<lparr>staging_data := Some ai_data\<rparr>"
    by simp
next
  assume "fst (on_result ai_data s) \<noteq> Reruns"
  then show "snd (on_result ai_data s) = s" by (rule on_result_not_reruns)
next
  assume a: "has_key ''error'' (fst (analyze_gauge loads create img w))"
  from on_result_error_key [OF a, of s]
  show "snd (analyze_telemetry loads create img w s) = s"
    and "\<exists>v. fst (analyze_telemetry loads create img w s) = ShowsError v"
    by (auto simp: analyze_telemetry_def)
qed

theorem error_result_is_not_staged_witness:
  "has_key ''error'' (all_models_failed ''timeout'')
   \<and> on_result (all_models_failed ''timeout'') initial_state
       = (ShowsError (JString ''All models failed. Last error: timeout''), initial_state)
   \<and> fst (on_result (JObject [(''reading'', JInt 7)]) initial_state) = Reruns
   \<and> staging_data (snd (on_result (JObject [(''reading'', JInt 7)]) initial_state))
       = Some (JObject [(''reading'', JInt 7)])
   \<and> fst (on_result JNull initial_state) \<noteq> Reruns
   \<and> snd (on_result JNull initial_state) = initial_state
   \<and> has_key ''error'' (fst (analyze_gauge json_loads refuses [] 0))
   \<and> snd (analyze_telemetry json_loads refuses [] 0 initial_state) = initial_state"
proof -
  note t = error_result_is_not_staged
  have a: "has_key ''error'' (all_models_failed ''timeout'')"
    by (simp add: all_models_failed_def dict_has_def)
  have b: "fst (on_result (JObject [(''reading'', JInt 7)]) initial_state) = Reruns"
    by (simp add: on_result_def dict_has_def)
  have c: "fst (on_result JNull initial_state) \<noteq> Reruns"
    by (simp add: on_result_def)
  have d: "has_key ''error'' (fst (analyze_gauge json_loads refuses [] 0))"
    by (simp add: analyze_gauge_def models_def refuses_def all_models_failed_def dict_has_def)
  from t [where ai_data = "all_models_failed ''timeout''" and s = initial_state, THEN conjunct1] a
  have "on_result (all_models_failed ''timeout'') initial_state
       = (ShowsError (JString ''All models failed. Last error: timeout''), initial_state)"
    by (auto simp: all_models_failed_def)
  moreover
  from t [where ai_data = "JObject [(''reading'', JInt 7)]" and s = initial_state,
          THEN conjunct2, THEN conjunct1] b
  have "staging_data (snd (on_result (JObject [(''reading'', JInt 7)]) initial_state))
       = Some (JObject [(''reading'', JInt 7)])"
    by simp
  moreover
  from t [where ai_data = JNull and s = initial_state, THEN conjunct2, THEN conjunct2,
          THEN conjunct1] c
  have "snd (on_result JNull initial_state) = initial_state" by blast
  moreover
  from t [where loads = json_loads and create = refuses and img = "[]" and w = 0
            and s = initial_state, THEN conjunct2, THEN conjunct2, THEN conjunct2] d
  have "snd (analyze_telemetry json_loads refuses [] 0 initial_state) = initial_state" by blast
  ultimately show ?thesis using a b c d by blast
qed

lemma json_42: "json_loads ''42'' = Inr (JInt 42)"
  by code_simp

lemma json_list: "json_loads ''[1, 2]'' = Inr (JArray [JInt 1, JInt 2])"
  by code_simp

text \<open>
  C9. There are texts that are valid JSON but no object, '42' and '[1, 2]', for which
  \<open>extract_json\<close> returns a value that is no mapping and has no \<open>error\<close> key.
  \<open>analyze_gauge\<close> forwards it, and the handler's test \<open>"error" in ai_data\<close> is then
  applied to a non-mapping: on 42 it raises \<open>TypeError\<close>, on [1, 2] it is a list
  membership and the list is staged.
\<close>

theorem non_mapping_result_breaks_dispatch:
  "extract_json json_loads ''42'' = Inr (JInt 42)
   \<and> \<not> is_mapping (JInt 42) \<and> \<not> has_key ''error'' (JInt 42)
   \<and> error_in (JInt 42) = Inl TypeError
   \<and> analyze_gauge json_loads (always_answers ''42'') img w
       = (JInt 42, [''meta-llama/llama-4-scout-17b-16e-instruct''], w)
   \<and> analyze_telemetry json_loads (always_answers ''42'') img w s = (Raised TypeError, s)
   \<and> extract_json json_loads ''[1, 2]'' = Inr (JArray [JInt 1, JInt 2])
   \<and> \<not> is_mapping (JArray [JInt 1, JInt 2])
   \<and> analyze_telemetry json_loads (always_answers ''[1, 2]'') img w s
       = (Reruns, s\<lparr>staging_data := Some (JArray [JInt 1, JInt 2])\<rparr>)"
proof -
  have a: "extract_json json_loads ''42'' = Inr (JInt 42)"
    by (rule extract_json_success [where loads = json_loads, OF json_42])
  have b: "extract_json json_loads ''[1, 2]'' = Inr (JArray [JInt 1, JInt 2])"
    by (rule extract_json_success [where loads = json_loads, OF json_list])
  have c: "analyze_gauge json_loads (always_answers ''42'') img w
       = (JInt 42, [''meta-llama/llama-4-scout-17b-16e-instruct''], w)"
    by (simp add: analyze_gauge_def models_def always_answers_def a)
  have d: "analyze_gauge json_loads (always_answers ''[1, 2]'') img w
       = (JArray [JInt 1, JInt 2], [''meta-llama/llama-4-scout-17b-16e-instruct''], w)"
    by (simp add: analyze_gauge_def models_def always_answers_def b)
  have e: "analyze_telemetry json_loads (always_answers ''42'') img w s = (Raised TypeError, s)"
    by (simp add: analyze_telemetry_def c on_result_def)
  have f: "analyze_telemetry json_loads (always_answers ''[1, 2]'') img w s
       = (Reruns, s\<lparr>staging_data := Some (JArray [JInt 1, JInt 2])\<rparr>)"
    by (simp add: analyze_telemetry_def d on_result_def)
  from a b c e f show ?thesis by simp
qed

section \<open>The requests of a run\<close>

lemma try_models_step_failure:
  assumes "create w m url = (r, wa)" and "failure_of loads r = Some d"
  shows "try_models loads create url (m # ms) e w
           = invoked m (try_models loads create url ms d wa)"
proof (cases r)
  case (Raises x)
  with assms show ?thesis by simp
next
  case (Content t)
  with assms show ?thesis
    by (cases t) (auto split: sum.splits)
qed

lemma try_models_step_success:
  assumes "create w m url = (r, wa)" and "failure_of loads r = None"
  shows "\<exists>body v. r = Content (Some body) \<and> extract_json loads body = Inr v
           \<and> try_models loads create url (m # ms) e w = (v, [m], wa)"
proof (cases r)
  case (Raises x)
  with assms show ?thesis by simp
next
  case (Content t)
  with assms show ?thesis
    by (cases t) (auto split: sum.splits)
qed

lemma logged_step:
  "create w m url = (r, wa) \<Longrightarrow> logged create (lg, w) m url = (r, (lg @ [Request m url r], wa))"
  by (simp add: logged_def)

lemma try_models_logged:
  "\<exists>v called new w'.
     try_models loads (logged create) url ms e (lg, w) = (v, called, (lg @ new, w'))
     \<and> try_models loads create url ms e w = (v, called, w')
     \<and> run_shape loads url ms e v called new"
proof (induction ms arbitrary: e lg w)
  case Nil
  show ?case by (simp add: run_shape_def)
next
  case (Cons m ms)
  obtain r wa where c: "create w m url = (r, wa)" by (cases "create w m url") auto
  have lc: "logged create (lg, w) m url = (r, (lg @ [Request m url r], wa))"
    using c by (simp add: logged_def)
  show ?case
  proof (cases "failure_of loads r")
    case None
    from try_models_step_success [where create = create and loads = loads, OF c None]
    obtain body v where b: "r = Content (Some body)" "extract_json loads body = Inr v"
      by blast
    have t: "try_models loads create url (m # ms) e w = (v, [m], wa)"
      using c b by simp
    have tl: "try_models loads (logged create) url (m # ms) e (lg, w)
                = (v, [m], (lg @ [Request m url r], wa))"
      using lc b by simp
    have "run_shape loads url (m # ms) e v [m] [Request m url r]"
      using None b by (simp add: run_shape_def)
    with tl t show ?thesis by blast
  next
    case (Some d)
    from Cons.IH [of d "lg @ [Request m url r]" wa] obtain v called new w' where
      il: "try_models loads (logged create) url ms d (lg @ [Request m url r], wa)
             = (v, called, ((lg @ [Request m url r]) @ new, w'))"
      and ip: "try_models loads create url ms d wa = (v, called, w')"
      and sh: "run_shape loads url ms d v called new"
      by blast
    have tl: "try_models loads (logged create) url (m # ms) e (lg, w)
                = (v, m # called, (lg @ (Request m url r # new), w'))"
      using try_models_step_failure [where create = "logged create" and loads = loads, OF lc Some, of ms e] il by simp
    have tp: "try_models loads create url (m # ms) e w = (v, m # called, w')"
      using try_models_step_failure [where create = create and loads = loads, OF c Some, of ms e] ip by simp
    have "run_shape loads url (m # ms) e v (m # called) (Request m url r # new)"
    proof (cases "new = []")
      case True
      with sh Some show ?thesis by (simp add: run_shape_def)
    next
      case False
      with sh Some show ?thesis
        by (auto simp: run_shape_def split: option.splits)
    qed
    with tl tp show ?thesis by blast
  qed
qed

lemma analyze_gauge_logged:
  assumes "analyze_gauge loads (logged create) img ([], w) = (v, called, (tr, w'))"
  shows "analyze_gauge loads create img w = (v, called, w')
         \<and> run_shape loads (image_url img) models [] v called tr"
proof -
  from try_models_logged [of loads create "image_url img" models "[]" "[]" w]
  obtain va ca new wa where
    "try_models loads (logged create) (image_url img) models [] ([], w)
       = (va, ca, ([] @ new, wa))"
    and "try_models loads create (image_url img) models [] w = (va, ca, wa)"
    and "run_shape loads (image_url img) models [] va ca new"
    by blast
  with assms show ?thesis by (simp add: analyze_gauge_def)
qed


text \<open>
  C8. For every service and every run of \<open>analyze_gauge\<close>, the requests that the service
  receives are these: at least one and at most 3, the number of candidates; they go to
  the candidates in the configured order, starting with the first, each candidate at most
  once, all with the same image URL; every request but the last got a failure for
  reply, so each failure is followed at once by the request to the next candidate and by
  nothing else; and when the last reply is a failure too, all candidates were requested.
  The loop is a recursion over the list of candidates, so it ends.
\<close>

theorem analyze_gauge_bounded_attempts:
  "analyze_gauge loads (logged create) img ([], w) = (v, called, (tr, w')) \<longrightarrow>
     analyze_gauge loads create img w = (v, called, w')
   \<and> map model_of tr = called
   \<and> prefix called models \<and> distinct called
   \<and> 1 \<le> length tr \<and> length tr \<le> length models \<and> length models = 3
   \<and> (\<forall>r \<in> set tr. url_of r = image_url img)
   \<and> (\<forall>r \<in> set (butlast tr). failure_of loads (reply_of r) \<noteq> None)
   \<and> (failure_of loads (reply_of (last tr)) \<noteq> None \<longrightarrow> called = models)"
proof
  assume a: "analyze_gauge loads (logged create) img ([], w) = (v, called, (tr, w'))"
  from analyze_gauge_logged [OF a]
  have p: "analyze_gauge loads create img w = (v, called, w')"
    and sh: "run_shape loads (image_url img) models [] v called tr"
    by simp_all
  from sh have m: "map model_of tr = called" and pre: "prefix called models"
    and u: "\<forall>r \<in> set tr. url_of r = image_url img"
    and f: "\<forall>r \<in> set (butlast tr). failure_of loads (reply_of r) \<noteq> None"
    by (simp_all add: run_shape_def)
  from sh have ne: "tr \<noteq> []"
    by (auto simp: run_shape_def models_def)
  with sh have l: "failure_of loads (reply_of (last tr)) \<noteq> None \<longrightarrow> called = models"
    by (auto simp: run_shape_def)
  from pre obtain rest where "models = called @ rest" by (auto simp: prefix_def)
  with distinct_models have d: "distinct called" by (metis distinct_append)
  from pre have "length called \<le> length models" by (rule prefix_length_le)
  with m have le: "length tr \<le> length models" by auto
  from ne have one: "1 \<le> length tr" by (cases tr) auto
  have "length models = 3" by (simp add: models_def)
  with p m pre d one le u f l
  show "analyze_gauge loads create img w = (v, called, w')
   \<and> map model_of tr = called
   \<and> prefix called models \<and> distinct called
   \<and> 1 \<le> length tr \<and> length tr \<le> length models \<and> length models = 3
   \<and> (\<forall>r \<in> set tr. url_of r = image_url img)
   \<and> (\<forall>r \<in> set (butlast tr). failure_of loads (reply_of r) \<noteq> None)
   \<and> (failure_of loads (reply_of (last tr)) \<noteq> None \<longrightarrow> called = models)"
    by blast
qed

lemma refuses_logged_run:
  "analyze_gauge json_loads (logged refuses) [] ([], 0)
     = (all_models_failed ''no capacity for llama-3.2-11b-vision-preview'', models,
        ([Request ''meta-llama/llama-4-scout-17b-16e-instruct'' ''data:image/jpeg;base64,''
            (Raises ''no capacity for meta-llama/llama-4-scout-17b-16e-instruct''),
          Request ''llama-3.2-90b-vision-preview'' ''data:image/jpeg;base64,''
            (Raises ''no capacity for llama-3.2-90b-vision-preview''),
          Request ''llama-3.2-11b-vision-preview'' ''data:image/jpeg;base64,''
            (Raises ''no capacity for llama-3.2-11b-vision-preview'')],
         3))"
  by (simp add: analyze_gauge_def models_def logged_def refuses_def image_url_def)

theorem analyze_gauge_bounded_attempts_witness:
  "analyze_gauge json_loads (logged refuses) [] ([], 0)
     = (all_models_failed ''no capacity for llama-3.2-11b-vision-preview'', models,
        ([Request ''meta-llama/llama-4-scout-17b-16e-instruct'' ''data:image/jpeg;base64,''
            (Raises ''no capacity for meta-llama/llama-4-scout-17b-16e-instruct''),
          Request ''llama-3.2-90b-vision-preview'' ''data:image/jpeg;base64,''
            (Raises ''no capacity for llama-3.2-90b-vision-preview''),
          Request ''llama-3.2-11b-vision-preview'' ''data:image/jpeg;base64,''
            (Raises ''no capacity for llama-3.2-11b-vision-preview'')],
         3))
   \<and> analyze_gauge json_loads refuses [] 0
     = (all_models_failed ''no capacity for llama-3.2-11b-vision-preview'', models, 3)"
  using analyze_gauge_bounded_attempts
          [where loads = json_loads and create = refuses and img = "[]" and w = 0
             and w' = 3 and called = models
             and v = "all_models_failed ''no capacity for llama-3.2-11b-vision-preview''"]
        refuses_logged_run
  by blast

section \<open>The two failure mappings\<close>





section \<open>The session log\<close>










section \<open>The encoder\<close>

text \<open>
  Where \<open>encode_image_to_base64\<close> returns, it returns the base64 text of the JPEG bytes of
  an image of the input's mode that is at most 800 wide and at most 800 high.
\<close>

lemma round_aspect_le:
  assumes "number \<le> 800"
  shows "nat (round_aspect number key) \<le> 800"
proof -
  have "\<lfloor>number\<rfloor> \<le> \<lceil>number\<rceil>" by (rule floor_le_ceiling)
  moreover from assms have "\<lceil>number\<rceil> \<le> 800" by (simp add: ceiling_le_iff)
  ultimately have "round_aspect number key \<le> 800"
    by (simp add: round_aspect_def)
  then show ?thesis by simp
qed

lemma thumbnail_bounded:
  assumes "thumbnail (800, 800) img = Inr im"
  shows "width im \<le> 800 \<and> height im \<le> 800 \<and> mode im = mode img"
proof (cases "800 \<ge> width img \<and> 800 \<ge> height img")
  case True
  with assms show ?thesis
    by (simp add: thumbnail_def preserve_aspect_ratio_def)
next
  case False
  with assms have h: "height img \<noteq> 0"
    by (auto simp: thumbnail_def preserve_aspect_ratio_def split: if_splits)
  let ?aspect = "rat_of_nat (width img) / rat_of_nat (height img)"
  show ?thesis
  proof (cases "rat_of_nat 800 / rat_of_nat 800 \<ge> ?aspect")
    case True
    then have "rat_of_nat 800 * ?aspect \<le> 800" by simp
    from round_aspect_le [OF this] assms False h True show ?thesis
      by (auto simp: thumbnail_def preserve_aspect_ratio_def Let_def)
  next
    case big: False
    define a where "a = ?aspect"
    from big have "1 < a" by (simp add: a_def)
    then have "800 \<le> 800 * a" and "0 < a" by simp_all
    then have "800 / a \<le> 800" by (simp add: pos_divide_le_eq)
    then have "rat_of_nat 800 / ?aspect \<le> 800" by (simp add: a_def)
    from round_aspect_le [OF this] assms False h big show ?thesis
      by (auto simp: thumbnail_def preserve_aspect_ratio_def Let_def)
  qed
qed

lemma encode_image_to_base64_returns:
  assumes "encode_image_to_base64 jpeg img = Inr s"
  shows "\<exists>im. thumbnail (800, 800) img = Inr im \<and> s = b64encode (jpeg im)
           \<and> width im \<le> 800 \<and> height im \<le> 800
           \<and> mode im = mode img \<and> mode img \<in> set jpeg_modes"
proof -
  from assms obtain im where t: "thumbnail (800, 800) img = Inr im"
    by (auto simp: encode_image_to_base64_def split: sum.splits)
  with assms have "s = b64encode (jpeg im)" and "mode im \<in> set jpeg_modes"
    by (auto simp: encode_image_to_base64_def save_jpeg_def split: if_splits)
  with t thumbnail_bounded [OF t] show ?thesis by auto
qed

text \<open>
  C7. The claim says that the encoder returns a base64 string for every decodable image.
  The code does not for an image with an alpha channel or a palette, which the uploader
  of PNG files delivers: the image is saved as JPEG without conversion, and the JPEG
  writer raises \<open>OSError\<close> for the modes \<open>RGBA\<close> and \<open>P\<close>, whether or not the image was
  resized first.
\<close>

theorem encode_image_to_base64_refuses_rgba:
  "encode_image_to_base64 jpeg \<lparr>width = 640, height = 480, mode = ''RGBA''\<rparr> = Inl OSError
   \<and> thumbnail (800, 800) \<lparr>width = 1600, height = 1200, mode = ''RGBA''\<rparr>
       = Inr \<lparr>width = 800, height = 600, mode = ''RGBA''\<rparr>
   \<and> encode_image_to_base64 jpeg \<lparr>width = 1600, height = 1200, mode = ''RGBA''\<rparr> = Inl OSError
   \<and> encode_image_to_base64 jpeg \<lparr>width = 64, height = 64, mode = ''P''\<rparr> = Inl OSError"
proof -
  have a: "thumbnail (800, 800) \<lparr>width = 1600, height = 1200, mode = ''RGBA''\<rparr>
       = Inr \<lparr>width = 800, height = 600, mode = ''RGBA''\<rparr>"
    by (simp add: thumbnail_def preserve_aspect_ratio_def round_aspect_def Let_def)
  have b: "thumbnail (800, 800) \<lparr>width = 640, height = 480, mode = ''RGBA''\<rparr>
       = Inr \<lparr>width = 640, height = 480, mode = ''RGBA''\<rparr>"
    by (simp add: thumbnail_def preserve_aspect_ratio_def)
  have c: "thumbnail (800, 800) \<lparr>width = 64, height = 64, mode = ''P''\<rparr>
       = Inr \<lparr>width = 64, height = 64, mode = ''P''\<rparr>"
    by (simp add: thumbnail_def preserve_aspect_ratio_def)
  show ?thesis
    by (simp add: encode_image_to_base64_def a b c save_jpeg_def jpeg_modes_def)
qed

end
